theory Spec2Isabelle
  imports Complex_Main
begin

section \<open>Fixed-window rate limiter: \<^verbatim>\<open>middleware/rateLimitMiddleware.ts\<close>\<close>

text \<open>
  The module keeps one process-wide \<^verbatim>\<open>Map<string, RateLimitData>\<close> and exports one
  function, \<^verbatim>\<open>rateLimitMiddleware(request, maxRequests = 5, windowMs = 60 * 1000)\<close>.
  The function reads the clock once (\<^verbatim>\<open>Date.now()\<close>), reads and writes one key of the
  map, and returns either \<^verbatim>\<open>undefined\<close> or the value of
  \<^verbatim>\<open>NextResponse.json(body, {status, headers})\<close>.

  Modelling decisions:
  \<^item> the map is passed in and returned (explicit state passing); the clock reading is an
    argument \<open>now\<close>;
  \<^item> a JavaScript \<^verbatim>\<open>number\<close> is modelled as \<open>int\<close>: counters, millisecond timestamps and
    the two configuration values are integer-valued, and on integers below \<open>2^53\<close> the
    operations used (\<open>+\<close>, \<open>-\<close>, \<open>>\<close>, \<^verbatim>\<open>Math.ceil(x / 1000)\<close>, \<^verbatim>\<open>toString\<close>) agree with
    their exact integer counterparts;
  \<^item> the returned promise is modelled by its value: the body has no \<^verbatim>\<open>await\<close>, so it runs
    to completion at the call;
  \<^item> \<^verbatim>\<open>undefined\<close> is \<open>None\<close>; a response is recorded as the arguments handed to
    \<^verbatim>\<open>NextResponse.json\<close> (body, status, headers in source order).
\<close>

subsection \<open>Data\<close>

record RateLimitData =
  count :: int
  resetTime :: int

record RateLimitErrorResponse =
  success :: bool
  message :: string

record NextResponse =
  body :: RateLimitErrorResponse
  status :: int
  headers :: "(string \<times> string) list"

text \<open>Of the request only the field \<^verbatim>\<open>ip\<close> (of type \<^verbatim>\<open>string | undefined\<close>) is read.\<close>

record NextRequest =
  ip :: "string option"

type_synonym RateLimitStore = "string \<rightharpoonup> RateLimitData"

subsection \<open>Number formatting and rounding\<close>

text \<open>\<^verbatim>\<open>Number.prototype.toString\<close> on an integer: decimal digits, a leading minus sign.\<close>

function digits10 :: "nat \<Rightarrow> string" where
  "digits10 n =
     (if n < 10 then [''0123456789'' ! n]
      else digits10 (n div 10) @ [''0123456789'' ! (n mod 10)])"
  by pat_completeness auto
termination
  by (relation "measure (\<lambda>n. n)") auto

declare digits10.simps [simp del]

definition toString :: "int \<Rightarrow> string" where
  "toString n = (if n < 0 then CHR ''-'' # digits10 (nat (- n)) else digits10 (nat n))"

text \<open>Reading a digit string back (used to show that \<open>toString\<close> loses nothing).\<close>

definition digits_value :: "string \<Rightarrow> nat" where
  "digits_value s = foldl (\<lambda>a c. 10 * a + (of_char c - 48)) 0 s"

text \<open>\<^verbatim>\<open>Math.ceil(x / 1000)\<close> on an integer \<open>x\<close>.\<close>

definition ceil_div_1000 :: "int \<Rightarrow> int" where
  "ceil_div_1000 x = - ((- x) div 1000)"

subsection \<open>The middleware\<close>

definition default_maxRequests :: int where
  "default_maxRequests = 5"

definition default_windowMs :: int where
  "default_windowMs = 60 * 1000"

text \<open>Line 41: \<^verbatim>\<open>request.ip || 'unknown'\<close>. The empty string is falsy as well.\<close>

definition request_ip :: "NextRequest \<Rightarrow> string" where
  "request_ip request =
     (case ip request of
        None \<Rightarrow> ''unknown''
      | Some s \<Rightarrow> if s = [] then ''unknown'' else s)"

text \<open>Line 45: \<^verbatim>\<open>ipRequestMap.get(ip) || { count: 0, resetTime: now + windowMs }\<close>.\<close>

definition get_ipData :: "RateLimitStore \<Rightarrow> string \<Rightarrow> int \<Rightarrow> int \<Rightarrow> RateLimitData" where
  "get_ipData ipRequestMap k windowMs now =
     (case ipRequestMap k of
        None \<Rightarrow> \<lparr>count = 0, resetTime = now + windowMs\<rparr>
      | Some d \<Rightarrow> d)"

text \<open>Lines 48-54: reset when the window has passed, then count the request.\<close>

definition update_ipData :: "RateLimitData \<Rightarrow> int \<Rightarrow> int \<Rightarrow> RateLimitData" where
  "update_ipData ipData windowMs now =
     (let ipData = (if now > resetTime ipData
                    then ipData\<lparr>count := 0, resetTime := now + windowMs\<rparr>
                    else ipData)
      in ipData\<lparr>count := count ipData + 1\<rparr>)"

text \<open>Lines 59-77: the rejection.\<close>

definition too_many_requests :: "RateLimitData \<Rightarrow> int \<Rightarrow> int \<Rightarrow> NextResponse" where
  "too_many_requests ipData maxRequests now =
     (let secondsToReset = ceil_div_1000 (resetTime ipData - now);
          headers =
            [(''X-RateLimit-Limit'', toString maxRequests),
             (''X-RateLimit-Remaining'', ''0''),
             (''X-RateLimit-Reset'', toString (ceil_div_1000 (resetTime ipData))),
             (''Retry-After'', toString secondsToReset)]
      in \<lparr>body = \<lparr>success = False,
                  message = ''Too many requests. Please try again in ''
                            @ toString secondsToReset @ '' seconds.''\<rparr>,
          status = 429,
          headers = headers\<rparr>)"

definition rateLimitMiddleware ::
  "RateLimitStore \<Rightarrow> NextRequest \<Rightarrow> int \<Rightarrow> int \<Rightarrow> int \<Rightarrow> NextResponse option \<times> RateLimitStore" where
  "rateLimitMiddleware ipRequestMap request maxRequests windowMs now =
     (let ip = request_ip request;
          ipData = update_ipData (get_ipData ipRequestMap ip windowMs now) windowMs now;
          ipRequestMap = ipRequestMap(ip \<mapsto> ipData)
      in if count ipData > maxRequests
         then (Some (too_many_requests ipData maxRequests now), ipRequestMap)
         else (None, ipRequestMap))"

subsection \<open>Sequences of calls\<close>

text \<open>
  One invocation: the request, the two configuration arguments and the clock reading.
  Different routes may pass different limits while sharing the one store, so the limits
  belong to the call.
\<close>

record call =
  call_request :: NextRequest
  call_maxRequests :: int
  call_windowMs :: int
  call_now :: int

definition handle :: "RateLimitStore \<Rightarrow> call \<Rightarrow> NextResponse option \<times> RateLimitStore" where
  "handle ipRequestMap c =
     rateLimitMiddleware ipRequestMap
       (call_request c) (call_maxRequests c) (call_windowMs c) (call_now c)"

text \<open>Calls are served one after the other; the store left by one is the store of the next.\<close>

fun handle_all :: "RateLimitStore \<Rightarrow> call list \<Rightarrow> NextResponse option list \<times> RateLimitStore" where
  "handle_all ipRequestMap [] = ([], ipRequestMap)"
| "handle_all ipRequestMap (c # cs) =
     (let (r, ipRequestMap') = handle ipRequestMap c;
          (rs, ipRequestMap'') = handle_all ipRequestMap' cs
      in (r # rs, ipRequestMap''))"

text \<open>The same request under the same limits, at the given clock readings.\<close>

definition calls_at :: "NextRequest \<Rightarrow> int \<Rightarrow> int \<Rightarrow> int list \<Rightarrow> call list" where
  "calls_at request maxRequests windowMs nows =
     map (\<lambda>now. \<lparr>call_request = request, call_maxRequests = maxRequests,
                 call_windowMs = windowMs, call_now = now\<rparr>) nows"

text \<open>
  Every call of the sequence arrives no later than the \<open>resetTime\<close> of the entry it works
  on (the stored entry, or the one line 45 makes up when there is none).
\<close>

fun within_window :: "RateLimitStore \<Rightarrow> NextRequest \<Rightarrow> int \<Rightarrow> int \<Rightarrow> int list \<Rightarrow> bool" where
  "within_window ipRequestMap request maxRequests windowMs [] = True"
| "within_window ipRequestMap request maxRequests windowMs (now # nows) =
     (now \<le> resetTime (get_ipData ipRequestMap (request_ip request) windowMs now)
      \<and> within_window (snd (rateLimitMiddleware ipRequestMap request maxRequests windowMs now))
           request maxRequests windowMs nows)"

subsection \<open>A log of window starts\<close>

text \<open>
  A call starts a window for its key when it creates the entry (line 45 finds none) or
  resets it (the test of line 48 succeeds). The log keeps, for every key, the clock
  reading and the \<open>windowMs\<close> of the last call that did so. It is not part of the program:
  it records the events that the invariant on \<open>resetTime\<close> speaks about.
\<close>

type_synonym window_log = "string \<rightharpoonup> int \<times> int"

definition starts_window :: "RateLimitStore \<Rightarrow> call \<Rightarrow> bool" where
  "starts_window ipRequestMap c =
     (case ipRequestMap (request_ip (call_request c)) of
        None \<Rightarrow> True
      | Some e \<Rightarrow> call_now c > resetTime e)"

fun window_starts :: "RateLimitStore \<Rightarrow> window_log \<Rightarrow> call list \<Rightarrow> window_log" where
  "window_starts ipRequestMap started [] = started"
| "window_starts ipRequestMap started (c # cs) =
     window_starts (snd (handle ipRequestMap c))
       (if starts_window ipRequestMap c
        then started(request_ip (call_request c) \<mapsto> (call_now c, call_windowMs c))
        else started)
       cs"

definition call_key :: "call \<Rightarrow> int \<times> int \<times> string" where
  "call_key c = (call_now c, call_windowMs c, request_ip (call_request c))"

subsection \<open>The scenario of the specification\<close>

abbreviation client :: NextRequest where
  "client \<equiv> \<lparr>ip = Some ''1.2.3.4''\<rparr>"

abbreviation after_five_calls :: RateLimitStore where
  "after_five_calls \<equiv> [''1.2.3.4'' \<mapsto> \<lparr>count = 5, resetTime = 61000\<rparr>]"

abbreviation after_six_calls :: RateLimitStore where
  "after_six_calls \<equiv> [''1.2.3.4'' \<mapsto> \<lparr>count = 6, resetTime = 61000\<rparr>]"

abbreviation sixth_response :: NextResponse where
  "sixth_response \<equiv>
     \<lparr>body = \<lparr>success = False,
              message = ''Too many requests. Please try again in 60 seconds.''\<rparr>,
      status = 429,
      headers = [(''X-RateLimit-Limit'', ''5''),
                 (''X-RateLimit-Remaining'', ''0''),
                 (''X-RateLimit-Reset'', ''61''),
                 (''Retry-After'', ''60'')]\<rparr>"

abbreviation two_clients :: RateLimitStore where
  "two_clients \<equiv>
     [''1.2.3.4'' \<mapsto> \<lparr>count = 5, resetTime = 61000\<rparr>,
      ''5.6.7.8'' \<mapsto> \<lparr>count = 2, resetTime = 70000\<rparr>]"

abbreviation anonymous :: NextRequest where
  "anonymous \<equiv> \<lparr>ip = None\<rparr>"

abbreviation three_calls :: "call list" where
  "three_calls \<equiv> calls_at client 5 60000 [1000, 1500, 61500]"

abbreviation two_calls :: "call list" where
  "two_calls \<equiv> calls_at client 1 60000 [1000, 1500]"

section \<open>Properties\<close>

subsection \<open>Basic facts\<close>

lemmas rl_defs =
  rateLimitMiddleware_def get_ipData_def update_ipData_def too_many_requests_def Let_def

lemma ceil_div_1000_ceiling: "ceil_div_1000 x = \<lceil>real_of_int x / 1000\<rceil>"
  using ceiling_divide_eq_div [of x 1000, where ?'a = real] by (simp add: ceil_div_1000_def)

lemma ceil_div_1000_nonneg: "0 \<le> x \<Longrightarrow> 0 \<le> ceil_div_1000 x"
  unfolding ceil_div_1000_def by linarith

text \<open>\<open>toString\<close> is one-to-one: a header value determines the number it was made from.\<close>

lemma digit_char_code:
  assumes "d < 10"
  shows "of_char (''0123456789'' ! d) = 48 + d"
proof -
  from assms have "d \<in> {0, 1, 2, 3, 4, 5, 6, 7, 8, 9}" by auto
  then show ?thesis by auto
qed

lemma digit_char_not_minus:
  assumes "d < 10"
  shows "''0123456789'' ! d \<noteq> CHR ''-''"
proof
  assume "''0123456789'' ! d = CHR ''-''"
  then have "(of_char (''0123456789'' ! d) :: nat) = of_char (CHR ''-'')" by simp
  with digit_char_code [OF assms] show False by simp
qed

lemma digits_value_digits10: "digits_value (digits10 n) = n"
proof (induction n rule: digits10.induct)
  case (1 n)
  show ?case
  proof (cases "n < 10")
    case True
    then show ?thesis
      by (subst digits10.simps) (simp add: digits_value_def digit_char_code)
  next
    case False
    with "1" have "digits_value (digits10 (n div 10)) = n div 10" by simp
    with False show ?thesis
      by (subst digits10.simps) (simp add: digits_value_def digit_char_code)
  qed
qed

lemma digits10_no_minus: "CHR ''-'' \<notin> set (digits10 n)"
proof (induction n rule: digits10.induct)
  case (1 n)
  show ?case
  proof (cases "n < 10")
    case True
    then show ?thesis
      using digit_char_not_minus [of n] by (subst digits10.simps) auto
  next
    case False
    with "1" have "CHR ''-'' \<notin> set (digits10 (n div 10))" by simp
    with False show ?thesis
      using digit_char_not_minus [of "n mod 10"] by (subst digits10.simps) auto
  qed
qed

lemma digits10_inj: "digits10 m = digits10 n \<Longrightarrow> m = n"
  by (metis digits_value_digits10)

lemma toString_inj:
  assumes "toString a = toString b"
  shows "a = b"
proof -
  have mixed: False if "x < 0" and "\<not> y < 0" and "toString x = toString y" for x y
  proof -
    from that have "CHR ''-'' # digits10 (nat (- x)) = digits10 (nat y)"
      by (simp add: toString_def)
    then have "CHR ''-'' \<in> set (digits10 (nat y))"
      by (metis list.set_intros(1))
    with digits10_no_minus show False by blast
  qed
  show ?thesis
  proof (cases "a < 0"; cases "b < 0")
    assume "a < 0" and "b < 0"
    with assms have "digits10 (nat (- a)) = digits10 (nat (- b))" by (simp add: toString_def)
    then have "nat (- a) = nat (- b)" by (rule digits10_inj)
    with \<open>a < 0\<close> \<open>b < 0\<close> show ?thesis by simp
  next
    assume "a < 0" and "\<not> b < 0"
    with mixed [of a b] assms show ?thesis by simp
  next
    assume "\<not> a < 0" and "b < 0"
    with mixed [of b a] assms show ?thesis by simp
  next
    assume "\<not> a < 0" and "\<not> b < 0"
    with assms have "digits10 (nat a) = digits10 (nat b)" by (simp add: toString_def)
    then have "nat a = nat b" by (rule digits10_inj)
    with \<open>\<not> a < 0\<close> \<open>\<not> b < 0\<close> show ?thesis by simp
  qed
qed

lemma rateLimitMiddleware_store:
  "snd (rateLimitMiddleware ipRequestMap request maxRequests windowMs now)
     = ipRequestMap(request_ip request \<mapsto>
         update_ipData (get_ipData ipRequestMap (request_ip request) windowMs now) windowMs now)"
  by (simp add: rateLimitMiddleware_def Let_def)

lemma rateLimitMiddleware_entry:
  "snd (rateLimitMiddleware ipRequestMap request maxRequests windowMs now) (request_ip request)
     = Some (update_ipData (get_ipData ipRequestMap (request_ip request) windowMs now) windowMs now)"
  by (simp add: rateLimitMiddleware_store)

lemma rateLimitMiddleware_admits:
  "fst (rateLimitMiddleware ipRequestMap request maxRequests windowMs now) = None \<longleftrightarrow>
     count (update_ipData (get_ipData ipRequestMap (request_ip request) windowMs now) windowMs now)
       \<le> maxRequests"
  by (simp add: rateLimitMiddleware_def Let_def)

lemma rateLimitMiddleware_rejects:
  "fst (rateLimitMiddleware ipRequestMap request maxRequests windowMs now) = Some response \<longleftrightarrow>
     maxRequests
       < count (update_ipData (get_ipData ipRequestMap (request_ip request) windowMs now) windowMs now)
     \<and> response = too_many_requests
         (update_ipData (get_ipData ipRequestMap (request_ip request) windowMs now) windowMs now)
         maxRequests now"
  by (auto simp add: rateLimitMiddleware_def Let_def)

lemma update_ipData_in_window:
  "now \<le> resetTime d \<Longrightarrow> update_ipData d windowMs now = d\<lparr>count := count d + 1\<rparr>"
  by (simp add: update_ipData_def)

lemma update_ipData_resetTime_ahead:
  "0 \<le> windowMs \<Longrightarrow> now \<le> resetTime (update_ipData d windowMs now)"
  by (simp add: update_ipData_def Let_def)

lemma snd_handle_all_Cons:
  "snd (handle_all ipRequestMap (c # cs)) = snd (handle_all (snd (handle ipRequestMap c)) cs)"
  by (simp add: split_beta)

lemma handle_all_append:
  "handle_all ipRequestMap (cs @ ds) =
     (fst (handle_all ipRequestMap cs) @ fst (handle_all (snd (handle_all ipRequestMap cs)) ds),
      snd (handle_all (snd (handle_all ipRequestMap cs)) ds))"
  by (induction cs arbitrary: ipRequestMap) (simp_all add: split_beta)

lemma within_window_append:
  "within_window ipRequestMap request maxRequests windowMs (nows @ nows') \<longleftrightarrow>
     within_window ipRequestMap request maxRequests windowMs nows
     \<and> within_window
         (snd (handle_all ipRequestMap (calls_at request maxRequests windowMs nows)))
         request maxRequests windowMs nows'"
  by (induction nows arbitrary: ipRequestMap)
    (simp_all add: calls_at_def handle_def split_beta conj_assoc)

subsection \<open>Calls inside one window\<close>

text \<open>
  While every call stays inside the window, each one adds exactly one to the counter; as
  long as the counter stays within the quota, each one is admitted.
\<close>

lemma within_window_run:
  assumes "within_window ipRequestMap request maxRequests windowMs nows"
    and "nows \<noteq> []"
    and "count (get_ipData ipRequestMap (request_ip request) windowMs (hd nows))
           + int (length nows) \<le> maxRequests"
  shows "fst (handle_all ipRequestMap (calls_at request maxRequests windowMs nows))
           = replicate (length nows) None
         \<and> map_option count
             (snd (handle_all ipRequestMap (calls_at request maxRequests windowMs nows))
                (request_ip request))
           = Some (count (get_ipData ipRequestMap (request_ip request) windowMs (hd nows))
                   + int (length nows))"
  using assms
proof (induction nows arbitrary: ipRequestMap)
  case Nil
  then show ?case by simp
next
  case (Cons now nows)
  let ?d = "get_ipData ipRequestMap (request_ip request) windowMs now"
  let ?m' = "snd (rateLimitMiddleware ipRequestMap request maxRequests windowMs now)"
  from Cons.prems have inw: "now \<le> resetTime ?d"
    and rest: "within_window ?m' request maxRequests windowMs nows"
    and bound: "count ?d + 1 + int (length nows) \<le> maxRequests"
    by simp_all
  have entry: "?m' (request_ip request) = Some (?d\<lparr>count := count ?d + 1\<rparr>)"
    using inw by (simp add: rateLimitMiddleware_entry update_ipData_in_window)
  have adm: "fst (rateLimitMiddleware ipRequestMap request maxRequests windowMs now) = None"
    using inw bound by (simp add: rateLimitMiddleware_admits update_ipData_in_window)
  show ?case
  proof (cases nows)
    case Nil
    with adm entry show ?thesis
      by (simp add: calls_at_def handle_def split_beta)
  next
    case (Cons t ts)
    have d': "get_ipData ?m' (request_ip request) windowMs (hd nows) = ?d\<lparr>count := count ?d + 1\<rparr>"
      using entry by (simp add: get_ipData_def)
    have "nows \<noteq> []" using Cons by simp
    from Cons.IH [OF rest this] bound d'
    have "fst (handle_all ?m' (calls_at request maxRequests windowMs nows))
            = replicate (length nows) None
        \<and> map_option count
            (snd (handle_all ?m' (calls_at request maxRequests windowMs nows)) (request_ip request))
           = Some (count ?d + 1 + int (length nows))"
      by simp
    with adm show ?thesis
      by (simp add: calls_at_def handle_def split_beta add.assoc)
  qed
qed



subsection \<open>Single calls on a stored entry\<close>

text \<open>
  C2. When the stored counter of the client equals \<open>maxRequests\<close> and the call arrives no
  later than the stored \<open>resetTime\<close>, the call is rejected: it returns a response, and the
  status of the response is 429.
\<close>

theorem rejected_after_quota:
  assumes "ipRequestMap (request_ip request) = Some e"
    and "count e = maxRequests"
    and "now \<le> resetTime e"
  shows "\<exists>response.
           fst (rateLimitMiddleware ipRequestMap request maxRequests windowMs now) = Some response
           \<and> status response = 429"
  using assms by (simp add: rl_defs)

theorem rejected_after_quota_witness:
  "after_five_calls (request_ip client) = Some \<lparr>count = 5, resetTime = 61000\<rparr>
   \<and> count \<lparr>count = 5, resetTime = 61000\<rparr> = 5
   \<and> (1500 :: int) \<le> resetTime \<lparr>count = 5, resetTime = 61000\<rparr>
   \<and> (\<exists>response.
        fst (rateLimitMiddleware after_five_calls client 5 60000 1500) = Some response
        \<and> status response = 429)"
proof -
  have h1: "after_five_calls (request_ip client) = Some \<lparr>count = 5, resetTime = 61000\<rparr>"
    by (simp add: request_ip_def)
  have h2: "count \<lparr>count = 5, resetTime = 61000\<rparr> = 5" by simp
  have h3: "(1500 :: int) \<le> resetTime \<lparr>count = 5, resetTime = 61000\<rparr>" by simp
  from rejected_after_quota
      [where ipRequestMap = after_five_calls and request = client and windowMs = 60000,
        OF h1 h2 h3]
    h1 h2 h3
  show ?thesis by blast
qed

text \<open>
  The same along a run: after \<open>maxRequests\<close> admitted calls inside the window, the next call
  inside the window is the first one rejected.
\<close>

lemma quota_then_rejected:
  assumes "case ipRequestMap (request_ip request) of None \<Rightarrow> True | Some e \<Rightarrow> count e = 0"
    and "int (length nows) = maxRequests"
    and "within_window ipRequestMap request maxRequests windowMs (nows @ [now])"
  shows "\<exists>response.
           fst (handle_all ipRequestMap (calls_at request maxRequests windowMs (nows @ [now])))
             = replicate (length nows) None @ [Some response]
           \<and> status response = 429"
proof -
  let ?cs = "calls_at request maxRequests windowMs nows"
  let ?m = "snd (handle_all ipRequestMap ?cs)"
  let ?d = "get_ipData ?m (request_ip request) windowMs now"
  from assms(3) have w1: "within_window ipRequestMap request maxRequests windowMs nows"
    and w2: "now \<le> resetTime ?d"
    by (simp_all add: within_window_append)
  have first: "fst (handle_all ipRequestMap ?cs) = replicate (length nows) None"
    and cnt: "count ?d = maxRequests"
  proof -
    show "fst (handle_all ipRequestMap ?cs) = replicate (length nows) None"
    proof (cases nows)
      case Nil
      then show ?thesis by (simp add: calls_at_def)
    next
      case (Cons t ts)
      have "count (get_ipData ipRequestMap (request_ip request) windowMs (hd nows)) = 0"
        using assms(1) by (simp add: get_ipData_def split: option.splits)
      with within_window_run [OF w1] assms(2) Cons show ?thesis by simp
    qed
    show "count ?d = maxRequests"
    proof (cases nows)
      case Nil
      with assms(1,2) show ?thesis
        by (simp add: calls_at_def get_ipData_def split: option.splits)
    next
      case (Cons t ts)
      have "count (get_ipData ipRequestMap (request_ip request) windowMs (hd nows)) = 0"
        using assms(1) by (simp add: get_ipData_def split: option.splits)
      with within_window_run [OF w1] assms(2) Cons
      have "map_option count (?m (request_ip request)) = Some maxRequests" by simp
      then show ?thesis by (auto simp add: get_ipData_def)
    qed
  qed
  have "maxRequests < count (update_ipData ?d windowMs now)"
    using w2 cnt by (simp add: update_ipData_in_window)
  then obtain response where
    r: "fst (rateLimitMiddleware ?m request maxRequests windowMs now) = Some response"
    by (auto simp add: rateLimitMiddleware_rejects)
  then have "status response = 429"
    by (simp add: rateLimitMiddleware_rejects too_many_requests_def Let_def)
  moreover have "fst (handle_all ipRequestMap (calls_at request maxRequests windowMs (nows @ [now])))
             = replicate (length nows) None @ [Some response]"
    using first r by (simp add: calls_at_def handle_all_append handle_def split_beta)
  ultimately show ?thesis by blast
qed

text \<open>
  C3. When the call arrives strictly after the stored \<open>resetTime\<close>, the entry it leaves has
  counter 1 and \<open>resetTime = now + windowMs\<close>, whatever the stored counter was; with
  \<open>maxRequests \<ge> 1\<close> the call is admitted.
\<close>

theorem elapsed_window_resets:
  assumes "ipRequestMap (request_ip request) = Some e"
    and "now > resetTime e"
  shows "snd (rateLimitMiddleware ipRequestMap request maxRequests windowMs now) (request_ip request)
           = Some \<lparr>count = 1, resetTime = now + windowMs\<rparr>
         \<and> (1 \<le> maxRequests \<longrightarrow>
              fst (rateLimitMiddleware ipRequestMap request maxRequests windowMs now) = None)"
  using assms by (simp add: rl_defs)

theorem elapsed_window_resets_witness:
  "after_five_calls (request_ip client) = Some \<lparr>count = 5, resetTime = 61000\<rparr>
   \<and> (61500 :: int) > resetTime \<lparr>count = 5, resetTime = 61000\<rparr>
   \<and> (1 :: int) \<le> 5
   \<and> snd (rateLimitMiddleware after_five_calls client 5 60000 61500) ''1.2.3.4''
       = Some \<lparr>count = 1, resetTime = 121500\<rparr>
   \<and> fst (rateLimitMiddleware after_five_calls client 5 60000 61500) = None"
proof -
  have h1: "after_five_calls (request_ip client) = Some \<lparr>count = 5, resetTime = 61000\<rparr>"
    by (simp add: request_ip_def)
  have h2: "(61500 :: int) > resetTime \<lparr>count = 5, resetTime = 61000\<rparr>" by simp
  from elapsed_window_resets
      [where ipRequestMap = after_five_calls and request = client and maxRequests = 5
         and windowMs = 60000, OF h1 h2]
    h1 h2
  show ?thesis
    by (simp add: request_ip_def)
qed

text \<open>
  C4. The test of line 48 is strict. A call arriving exactly at the stored \<open>resetTime\<close> does
  not reset: it leaves the stored counter plus one and the same \<open>resetTime\<close>, and it is
  admitted exactly when the old counter plus one is within \<open>maxRequests\<close>.
\<close>

theorem boundary_call_not_reset:
  assumes "ipRequestMap (request_ip request) = Some e"
    and "now = resetTime e"
  shows "snd (rateLimitMiddleware ipRequestMap request maxRequests windowMs now) (request_ip request)
           = Some \<lparr>count = count e + 1, resetTime = resetTime e\<rparr>
         \<and> (fst (rateLimitMiddleware ipRequestMap request maxRequests windowMs now) = None
              \<longleftrightarrow> count e + 1 \<le> maxRequests)"
  using assms by (auto simp add: rl_defs)

theorem boundary_call_not_reset_witness:
  "after_five_calls (request_ip client) = Some \<lparr>count = 5, resetTime = 61000\<rparr>
   \<and> (61000 :: int) = resetTime \<lparr>count = 5, resetTime = 61000\<rparr>
   \<and> snd (rateLimitMiddleware after_five_calls client 5 60000 61000) ''1.2.3.4''
       = Some \<lparr>count = 6, resetTime = 61000\<rparr>
   \<and> fst (rateLimitMiddleware after_five_calls client 5 60000 61000) \<noteq> None"
proof -
  have h1: "after_five_calls (request_ip client) = Some \<lparr>count = 5, resetTime = 61000\<rparr>"
    by (simp add: request_ip_def)
  have h2: "(61000 :: int) = resetTime \<lparr>count = 5, resetTime = 61000\<rparr>" by simp
  from boundary_call_not_reset
      [where ipRequestMap = after_five_calls and request = client and maxRequests = 5
         and windowMs = 60000, OF h1 h2]
    h1 h2
  show ?thesis
    by (simp add: request_ip_def)
qed

subsection \<open>The rejection response\<close>

lemma sixth_call:
  "rateLimitMiddleware after_five_calls client 5 60000 1500 = (Some sixth_response, after_six_calls)"
  by (simp add: rl_defs request_ip_def toString_def ceil_div_1000_def digits10.simps)

text \<open>
  C5. The entry a call leaves under its key has a \<open>resetTime\<close> from which the seconds to
  wait are computed: a rejected call carries, as its \<^verbatim>\<open>Retry-After\<close> header, the decimal
  string of \<open>\<lceil>(resetTime - now) / 1000\<rceil>\<close> for that entry. With \<open>windowMs > 0\<close> this number is
  never negative, on any store (reachable or not) and for any call.
\<close>

theorem retry_after_value:
  assumes "rateLimitMiddleware ipRequestMap request maxRequests windowMs now = (outcome, ipRequestMap')"
  shows "\<exists>e'. ipRequestMap' (request_ip request) = Some e'
           \<and> (\<forall>response. outcome = Some response \<longrightarrow>
                map_of (headers response) ''Retry-After''
                  = Some (toString (ceil_div_1000 (resetTime e' - now))))
           \<and> ceil_div_1000 (resetTime e' - now) = \<lceil>real_of_int (resetTime e' - now) / 1000\<rceil>
           \<and> (0 < windowMs \<longrightarrow> 0 \<le> ceil_div_1000 (resetTime e' - now))"
proof -
  let ?e = "update_ipData (get_ipData ipRequestMap (request_ip request) windowMs now) windowMs now"
  have m': "ipRequestMap' (request_ip request) = Some ?e"
    using assms rateLimitMiddleware_entry [of ipRequestMap request maxRequests windowMs now] by simp
  have hdr: "map_of (headers response) ''Retry-After'' = Some (toString (ceil_div_1000 (resetTime ?e - now)))"
    if "outcome = Some response" for response
  proof -
    from that assms have "response = too_many_requests ?e maxRequests now"
      using rateLimitMiddleware_rejects [of ipRequestMap request maxRequests windowMs now response] by simp
    then show ?thesis by (simp add: too_many_requests_def Let_def)
  qed
  have pos: "0 \<le> ceil_div_1000 (resetTime ?e - now)" if "0 < windowMs"
    using that update_ipData_resetTime_ahead [of windowMs now] by (intro ceil_div_1000_nonneg) simp
  from m' hdr pos show ?thesis
    by (simp add: ceil_div_1000_ceiling)
qed

theorem retry_after_value_witness:
  "rateLimitMiddleware after_five_calls client 5 60000 1500 = (Some sixth_response, after_six_calls)
   \<and> (0 :: int) < 60000
   \<and> map_of (headers sixth_response) ''Retry-After'' = Some (toString (ceil_div_1000 (61000 - 1500)))
   \<and> 0 \<le> ceil_div_1000 (61000 - 1500)"
proof -
  from retry_after_value [OF sixth_call]
  obtain e' where "after_six_calls (request_ip client) = Some e'"
    and "\<forall>response. Some sixth_response = Some response \<longrightarrow>
                map_of (headers response) ''Retry-After''
                  = Some (toString (ceil_div_1000 (resetTime e' - 1500)))"
    and "(0 :: int) < 60000 \<longrightarrow> 0 \<le> ceil_div_1000 (resetTime e' - 1500)"
    by blast
  moreover from this(1) have "e' = \<lparr>count = 6, resetTime = 61000\<rparr>"
    by (simp add: request_ip_def)
  ultimately show ?thesis using sixth_call by simp
qed

text \<open>
  C6. A rejected call returns status 429, the four headers \<^verbatim>\<open>X-RateLimit-Limit\<close>
  (\<open>maxRequests\<close> as a string), \<^verbatim>\<open>X-RateLimit-Remaining\<close> (\<^verbatim>\<open>"0"\<close>), \<^verbatim>\<open>X-RateLimit-Reset\<close>
  (\<open>\<lceil>resetTime / 1000\<rceil>\<close>) and \<^verbatim>\<open>Retry-After\<close> (\<open>\<lceil>(resetTime - now) / 1000\<rceil>\<close>) and no other, and
  the body \<^verbatim>\<open>{success: false, message: "Too many requests. Please try again in N seconds."}\<close>
  with \<open>N\<close> the \<^verbatim>\<open>Retry-After\<close> value; \<open>resetTime\<close> is that of the entry the call leaves.
\<close>

theorem rejected_response_shape:
  assumes "rateLimitMiddleware ipRequestMap request maxRequests windowMs now = (Some response, ipRequestMap')"
  shows "\<exists>e'. ipRequestMap' (request_ip request) = Some e'
           \<and> status response = 429
           \<and> headers response =
               [(''X-RateLimit-Limit'', toString maxRequests),
                (''X-RateLimit-Remaining'', ''0''),
                (''X-RateLimit-Reset'', toString (ceil_div_1000 (resetTime e'))),
                (''Retry-After'', toString (ceil_div_1000 (resetTime e' - now)))]
           \<and> body response =
               \<lparr>success = False,
                message = ''Too many requests. Please try again in ''
                          @ toString (ceil_div_1000 (resetTime e' - now)) @ '' seconds.''\<rparr>"
proof -
  let ?e = "update_ipData (get_ipData ipRequestMap (request_ip request) windowMs now) windowMs now"
  have m': "ipRequestMap' (request_ip request) = Some ?e"
    using assms rateLimitMiddleware_entry [of ipRequestMap request maxRequests windowMs now] by simp
  have "response = too_many_requests ?e maxRequests now"
    using assms rateLimitMiddleware_rejects [of ipRequestMap request maxRequests windowMs now response] by simp
  with m' show ?thesis by (simp add: too_many_requests_def Let_def)
qed

theorem rejected_response_shape_witness:
  "rateLimitMiddleware after_five_calls client 5 60000 1500 = (Some sixth_response, after_six_calls)
   \<and> (\<exists>e'. after_six_calls (request_ip client) = Some e'
           \<and> status sixth_response = 429
           \<and> headers sixth_response =
               [(''X-RateLimit-Limit'', toString 5),
                (''X-RateLimit-Remaining'', ''0''),
                (''X-RateLimit-Reset'', toString (ceil_div_1000 (resetTime e'))),
                (''Retry-After'', toString (ceil_div_1000 (resetTime e' - 1500)))]
           \<and> body sixth_response =
               \<lparr>success = False,
                message = ''Too many requests. Please try again in ''
                          @ toString (ceil_div_1000 (resetTime e' - 1500)) @ '' seconds.''\<rparr>)"
  using rejected_response_shape [OF sixth_call] sixth_call by blast

subsection \<open>Keys\<close>

text \<open>
  C7. A call leaves the entry of every key other than its own as it was (present with the
  same counter and \<open>resetTime\<close>, or absent), and its outcome and the entry it writes depend
  on the store only through the entry of its own key.
\<close>

theorem other_clients_untouched:
  "(k \<noteq> request_ip request \<longrightarrow>
      snd (rateLimitMiddleware ipRequestMap request maxRequests windowMs now) k = ipRequestMap k)
   \<and> (ipRequestMap (request_ip request) = otherMap (request_ip request) \<longrightarrow>
        fst (rateLimitMiddleware ipRequestMap request maxRequests windowMs now)
          = fst (rateLimitMiddleware otherMap request maxRequests windowMs now)
        \<and> snd (rateLimitMiddleware ipRequestMap request maxRequests windowMs now) (request_ip request)
          = snd (rateLimitMiddleware otherMap request maxRequests windowMs now) (request_ip request))"
proof (intro conjI impI)
  assume "k \<noteq> request_ip request"
  then show "snd (rateLimitMiddleware ipRequestMap request maxRequests windowMs now) k = ipRequestMap k"
    by (simp add: rateLimitMiddleware_store)
next
  assume "ipRequestMap (request_ip request) = otherMap (request_ip request)"
  then have "get_ipData ipRequestMap (request_ip request) windowMs now
               = get_ipData otherMap (request_ip request) windowMs now"
    by (simp add: get_ipData_def)
  then show "fst (rateLimitMiddleware ipRequestMap request maxRequests windowMs now)
               = fst (rateLimitMiddleware otherMap request maxRequests windowMs now)"
    by (simp add: rateLimitMiddleware_def Let_def)
next
  assume "ipRequestMap (request_ip request) = otherMap (request_ip request)"
  then have "get_ipData ipRequestMap (request_ip request) windowMs now
               = get_ipData otherMap (request_ip request) windowMs now"
    by (simp add: get_ipData_def)
  then show "snd (rateLimitMiddleware ipRequestMap request maxRequests windowMs now) (request_ip request)
               = snd (rateLimitMiddleware otherMap request maxRequests windowMs now) (request_ip request)"
    by (simp add: rateLimitMiddleware_entry)
qed

theorem other_clients_untouched_witness:
  "''5.6.7.8'' \<noteq> request_ip client
   \<and> after_five_calls (request_ip client) = two_clients (request_ip client)
   \<and> snd (rateLimitMiddleware two_clients client 5 60000 1500) ''5.6.7.8''
       = Some \<lparr>count = 2, resetTime = 70000\<rparr>
   \<and> fst (rateLimitMiddleware after_five_calls client 5 60000 1500)
       = fst (rateLimitMiddleware two_clients client 5 60000 1500)
   \<and> snd (rateLimitMiddleware after_five_calls client 5 60000 1500) (request_ip client)
       = snd (rateLimitMiddleware two_clients client 5 60000 1500) (request_ip client)"
proof -
  have h1: "''5.6.7.8'' \<noteq> request_ip client" by (simp add: request_ip_def)
  have h2: "after_five_calls (request_ip client) = two_clients (request_ip client)"
    by (simp add: request_ip_def)
  from other_clients_untouched
      [where k = "''5.6.7.8''" and request = client and ipRequestMap = two_clients
         and maxRequests = 5 and windowMs = 60000 and now = 1500]
    h1
  have "snd (rateLimitMiddleware two_clients client 5 60000 1500) ''5.6.7.8''
       = Some \<lparr>count = 2, resetTime = 70000\<rparr>" by simp
  moreover from other_clients_untouched
      [where request = client and ipRequestMap = after_five_calls and otherMap = two_clients
         and maxRequests = 5 and windowMs = 60000 and now = 1500]
    h2
  have "fst (rateLimitMiddleware after_five_calls client 5 60000 1500)
       = fst (rateLimitMiddleware two_clients client 5 60000 1500)
   \<and> snd (rateLimitMiddleware after_five_calls client 5 60000 1500) (request_ip client)
       = snd (rateLimitMiddleware two_clients client 5 60000 1500) (request_ip client)"
    by blast
  ultimately show ?thesis using h1 h2 by blast
qed

text \<open>
  C9. The middleware has no failing path: every call returns \<^verbatim>\<open>undefined\<close> or a response with
  status 429. A request whose \<^verbatim>\<open>ip\<close> is \<^verbatim>\<open>undefined\<close> (or the empty string) is filed under the
  key \<^verbatim>\<open>"unknown"\<close>, and of two such requests the second updates the very entry that the
  first one left under that key.
\<close>

theorem total_and_unknown_bucket:
  "(fst (rateLimitMiddleware ipRequestMap request maxRequests windowMs now) = None
      \<or> (\<exists>response. fst (rateLimitMiddleware ipRequestMap request maxRequests windowMs now) = Some response
            \<and> status response = 429))
   \<and> (ip request = None \<or> ip request = Some [] \<longrightarrow> request_ip request = ''unknown'')
   \<and> ((ip requestA = None \<or> ip requestA = Some []) \<and> (ip requestB = None \<or> ip requestB = Some []) \<longrightarrow>
        (\<exists>e1. snd (rateLimitMiddleware ipRequestMap requestA maxRequests windowMs now) ''unknown'' = Some e1
           \<and> snd (rateLimitMiddleware
                    (snd (rateLimitMiddleware ipRequestMap requestA maxRequests windowMs now))
                    requestB maxRequestsB windowMsB nowB) ''unknown''
               = Some (update_ipData e1 windowMsB nowB)))"
proof (intro conjI impI)
  show "fst (rateLimitMiddleware ipRequestMap request maxRequests windowMs now) = None
      \<or> (\<exists>response.
            fst (rateLimitMiddleware ipRequestMap request maxRequests windowMs now) = Some response
            \<and> status response = 429)"
    by (simp add: rateLimitMiddleware_def too_many_requests_def Let_def)
next
  assume "ip request = None \<or> ip request = Some []"
  then show "request_ip request = ''unknown''"
    by (auto simp add: request_ip_def)
next
  let ?m = "snd (rateLimitMiddleware ipRequestMap requestA maxRequests windowMs now)"
  assume "(ip requestA = None \<or> ip requestA = Some []) \<and> (ip requestB = None \<or> ip requestB = Some [])"
  then have a: "request_ip requestA = ''unknown''" and b: "request_ip requestB = ''unknown''"
    by (auto simp add: request_ip_def)
  from a have first: "?m ''unknown''
      = Some (update_ipData (get_ipData ipRequestMap ''unknown'' windowMs now) windowMs now)"
    using rateLimitMiddleware_entry [of ipRequestMap requestA maxRequests windowMs now] by simp
  from b have "snd (rateLimitMiddleware ?m requestB maxRequestsB windowMsB nowB) ''unknown''
      = Some (update_ipData (get_ipData ?m ''unknown'' windowMsB nowB) windowMsB nowB)"
    using rateLimitMiddleware_entry [of ?m requestB maxRequestsB windowMsB nowB] by simp
  with first show "\<exists>e1. ?m ''unknown'' = Some e1
           \<and> snd (rateLimitMiddleware ?m requestB maxRequestsB windowMsB nowB) ''unknown''
               = Some (update_ipData e1 windowMsB nowB)"
    by (simp add: get_ipData_def)
qed

theorem total_and_unknown_bucket_witness:
  "ip anonymous = None
   \<and> request_ip anonymous = ''unknown''
   \<and> snd (rateLimitMiddleware Map.empty anonymous 5 60000 1000) ''unknown''
       = Some \<lparr>count = 1, resetTime = 61000\<rparr>
   \<and> snd (rateLimitMiddleware (snd (rateLimitMiddleware Map.empty anonymous 5 60000 1000))
            \<lparr>ip = Some []\<rparr> 5 60000 1500) ''unknown''
       = Some \<lparr>count = 2, resetTime = 61000\<rparr>"
proof -
  have h: "ip anonymous = None" by simp
  have h2: "ip \<lparr>ip = Some []\<rparr> = Some []" by simp
  from total_and_unknown_bucket
      [where ipRequestMap = Map.empty and request = anonymous and requestA = anonymous
         and requestB = "\<lparr>ip = Some []\<rparr>" and maxRequests = 5 and windowMs = 60000
         and now = 1000 and maxRequestsB = 5 and windowMsB = 60000 and nowB = 1500]
    h h2
  obtain e1 where u: "request_ip anonymous = ''unknown''"
    and e1: "snd (rateLimitMiddleware Map.empty anonymous 5 60000 1000) ''unknown'' = Some e1"
    and e2: "snd (rateLimitMiddleware (snd (rateLimitMiddleware Map.empty anonymous 5 60000 1000))
            \<lparr>ip = Some []\<rparr> 5 60000 1500) ''unknown'' = Some (update_ipData e1 60000 1500)"
    by blast
  have "snd (rateLimitMiddleware Map.empty anonymous 5 60000 1000) ''unknown''
       = Some \<lparr>count = 1, resetTime = 61000\<rparr>"
    by (simp add: rl_defs request_ip_def)
  with e1 have "e1 = \<lparr>count = 1, resetTime = 61000\<rparr>" by simp
  with u e1 e2 h show ?thesis by (simp add: update_ipData_def)
qed

subsection \<open>Invariants of the store\<close>

text \<open>
  Every entry of the store has a counter that is not negative, and its \<open>resetTime\<close> is the
  clock reading of the last call that started a window for its key plus the \<open>windowMs\<close> of
  that call. One call preserves this, hence so does any sequence of calls.
\<close>

lemma handle_invariant:
  assumes "\<forall>k e. ipRequestMap k = Some e \<longrightarrow>
             0 \<le> count e
             \<and> (\<exists>t w. started k = Some (t, w) \<and> resetTime e = t + w \<and> (t, w, k) \<in> S)"
  shows "\<forall>k e. snd (handle ipRequestMap c) k = Some e \<longrightarrow>
           0 \<le> count e
           \<and> (\<exists>t w. (if starts_window ipRequestMap c
                      then started(request_ip (call_request c) \<mapsto> (call_now c, call_windowMs c))
                      else started) k = Some (t, w)
                  \<and> resetTime e = t + w \<and> (t, w, k) \<in> insert (call_key c) S)"
proof (intro allI impI)
  fix k e
  assume e: "snd (handle ipRequestMap c) k = Some e"
  show "0 \<le> count e
           \<and> (\<exists>t w. (if starts_window ipRequestMap c
                      then started(request_ip (call_request c) \<mapsto> (call_now c, call_windowMs c))
                      else started) k = Some (t, w)
                  \<and> resetTime e = t + w \<and> (t, w, k) \<in> insert (call_key c) S)"
  proof (cases "k = request_ip (call_request c)")
    case False
    with e have "ipRequestMap k = Some e"
      by (simp add: handle_def rateLimitMiddleware_store)
    with assms have "0 \<le> count e"
      and "\<exists>t w. started k = Some (t, w) \<and> resetTime e = t + w \<and> (t, w, k) \<in> S"
      by blast+
    with False show ?thesis by auto
  next
    case True
    show ?thesis
    proof (cases "ipRequestMap k")
      case None
      with True e show ?thesis
        by (auto simp add: handle_def rateLimitMiddleware_store starts_window_def
            get_ipData_def update_ipData_def call_key_def)
    next
      case (Some d)
      with assms have "0 \<le> count d"
        and "\<exists>t w. started k = Some (t, w) \<and> resetTime d = t + w \<and> (t, w, k) \<in> S"
        by blast+
      with True e Some show ?thesis
        by (auto simp add: handle_def rateLimitMiddleware_store starts_window_def
            get_ipData_def update_ipData_def call_key_def)
    qed
  qed
qed

lemma handle_all_invariant:
  assumes "\<forall>k e. ipRequestMap k = Some e \<longrightarrow>
             0 \<le> count e
             \<and> (\<exists>t w. started k = Some (t, w) \<and> resetTime e = t + w \<and> (t, w, k) \<in> S)"
  shows "\<forall>k e. snd (handle_all ipRequestMap cs) k = Some e \<longrightarrow>
           0 \<le> count e
           \<and> (\<exists>t w. window_starts ipRequestMap started cs k = Some (t, w)
                  \<and> resetTime e = t + w \<and> (t, w, k) \<in> S \<union> call_key ` set cs)"
  using assms
proof (induction cs arbitrary: ipRequestMap started S)
  case Nil
  then show ?case by simp
next
  case (Cons c cs)
  from Cons.IH [OF handle_invariant [OF Cons.prems, of c]]
  show ?case
    by (simp only: snd_handle_all_Cons window_starts.simps list.set image_insert
        Un_insert_left Un_insert_right)
qed

lemma reachable_invariant:
  assumes "snd (handle_all Map.empty cs) k = Some e"
  shows "0 \<le> count e
       \<and> (\<exists>t w. window_starts Map.empty Map.empty cs k = Some (t, w)
              \<and> resetTime e = t + w
              \<and> (\<exists>c \<in> set cs. call_now c = t \<and> call_windowMs c = w
                    \<and> request_ip (call_request c) = k))"
proof -
  have "\<forall>k e. Map.empty k = Some e \<longrightarrow>
          0 \<le> count (e::RateLimitData)
          \<and> (\<exists>t w. (Map.empty :: window_log) k = Some (t, w) \<and> resetTime e = t + w
                 \<and> (t, w, k) \<in> {})"
    by simp
  from handle_all_invariant [OF this, of cs] assms
  show ?thesis
    by (fastforce simp add: call_key_def image_iff)
qed

text \<open>
  C8. In every store reached from the empty one, every entry has \<open>count \<ge> 0\<close>, and its
  \<open>resetTime\<close> equals the time at which its window was last started (by the call that
  created or reset the entry) plus the \<open>windowMs\<close> of that call. A call that finds no entry
  for its key behaves as if the entry \<open>\<lparr>count = 0, resetTime = now + windowMs\<rparr>\<close> were stored.
\<close>

theorem entry_invariants:
  "(\<forall>k e. snd (handle_all Map.empty cs) k = Some e \<longrightarrow>
       0 \<le> count e
       \<and> (\<exists>t w. window_starts Map.empty Map.empty cs k = Some (t, w)
              \<and> resetTime e = t + w
              \<and> (\<exists>c \<in> set cs. call_now c = t \<and> call_windowMs c = w
                    \<and> request_ip (call_request c) = k)))
   \<and> (ipRequestMap (request_ip request) = None \<longrightarrow>
        rateLimitMiddleware ipRequestMap request maxRequests windowMs now
          = rateLimitMiddleware
              (ipRequestMap(request_ip request \<mapsto> \<lparr>count = 0, resetTime = now + windowMs\<rparr>))
              request maxRequests windowMs now)"
proof -
  have "ipRequestMap (request_ip request) = None \<longrightarrow>
        rateLimitMiddleware ipRequestMap request maxRequests windowMs now
          = rateLimitMiddleware
              (ipRequestMap(request_ip request \<mapsto> \<lparr>count = 0, resetTime = now + windowMs\<rparr>))
              request maxRequests windowMs now"
    by (simp add: rateLimitMiddleware_def get_ipData_def Let_def)
  with reachable_invariant [of cs] show ?thesis by blast
qed

lemma three_calls_store:
  "snd (handle_all Map.empty three_calls) ''1.2.3.4'' = Some \<lparr>count = 1, resetTime = 121500\<rparr>"
  by (simp add: calls_at_def handle_def rl_defs request_ip_def split_beta)

lemma three_calls_log:
  "window_starts Map.empty Map.empty three_calls ''1.2.3.4'' = Some (61500, 60000)"
  by (simp add: calls_at_def handle_def rl_defs request_ip_def starts_window_def)

theorem entry_invariants_witness:
  "snd (handle_all Map.empty three_calls) ''1.2.3.4'' = Some \<lparr>count = 1, resetTime = 121500\<rparr>
   \<and> 0 \<le> count \<lparr>count = 1, resetTime = 121500\<rparr>
   \<and> window_starts Map.empty Map.empty three_calls ''1.2.3.4'' = Some (61500, 60000)
   \<and> resetTime \<lparr>count = 1, resetTime = 121500\<rparr> = 61500 + 60000
   \<and> Map.empty (request_ip client) = (None :: RateLimitData option)
   \<and> rateLimitMiddleware Map.empty client 5 60000 1000
       = rateLimitMiddleware
           (Map.empty(request_ip client \<mapsto> \<lparr>count = 0, resetTime = 1000 + 60000\<rparr>))
           client 5 60000 1000"
proof -
  have h: "Map.empty (request_ip client) = (None :: RateLimitData option)" by simp
  from entry_invariants
      [where cs = three_calls and ipRequestMap = Map.empty and request = client
         and maxRequests = 5 and windowMs = 60000 and now = 1000]
    three_calls_store h
  obtain t w where "0 \<le> count \<lparr>count = 1, resetTime = 121500\<rparr>"
    and "window_starts Map.empty Map.empty three_calls ''1.2.3.4'' = Some (t, w)"
    and "resetTime \<lparr>count = 1, resetTime = 121500\<rparr> = t + w"
    and "rateLimitMiddleware Map.empty client 5 60000 1000
       = rateLimitMiddleware
           (Map.empty(request_ip client \<mapsto> \<lparr>count = 0, resetTime = 1000 + 60000\<rparr>))
           client 5 60000 1000"
    by blast
  with three_calls_store three_calls_log h show ?thesis by simp
qed

text \<open>
  C10, as stated, fails: with \<open>maxRequests = 0\<close> a call arriving after the window has
  elapsed resets the entry and is rejected all the same, so a rejected call has changed
  \<open>resetTime\<close> (61000 to 121500) and has not raised the stored counter (1 before, 1 after).
\<close>

theorem rejected_call_resets_counterexample:
  "fst (rateLimitMiddleware (snd (rateLimitMiddleware Map.empty client 0 60000 1000))
          client 0 60000 61500) \<noteq> None
   \<and> snd (rateLimitMiddleware Map.empty client 0 60000 1000) ''1.2.3.4''
       = Some \<lparr>count = 1, resetTime = 61000\<rparr>
   \<and> snd (rateLimitMiddleware (snd (rateLimitMiddleware Map.empty client 0 60000 1000))
            client 0 60000 61500) ''1.2.3.4''
       = Some \<lparr>count = 1, resetTime = 121500\<rparr>"
  by (simp add: rl_defs request_ip_def)

text \<open>
  C10, amended. After every call on a store reached from the empty one, the store has an
  entry for the key of the call with \<open>count \<ge> 1\<close> and, given \<open>windowMs > 0\<close>,
  \<open>resetTime \<ge> now\<close>; no key is removed; and, given \<open>maxRequests \<ge> 1\<close>, a rejected call
  found an entry, raised its counter by one and left its \<open>resetTime\<close> as it was (so the
  counter grows past \<open>maxRequests + 1\<close> when rejected calls follow one another in a window).
\<close>

theorem entry_after_call:
  "\<exists>e'. snd (rateLimitMiddleware (snd (handle_all Map.empty cs)) request maxRequests windowMs now)
          (request_ip request) = Some e'
     \<and> 1 \<le> count e'
     \<and> (0 < windowMs \<longrightarrow> now \<le> resetTime e')
     \<and> dom (snd (handle_all Map.empty cs))
         \<subseteq> dom (snd (rateLimitMiddleware (snd (handle_all Map.empty cs)) request maxRequests windowMs now))
     \<and> (1 \<le> maxRequests
         \<and> fst (rateLimitMiddleware (snd (handle_all Map.empty cs)) request maxRequests windowMs now) \<noteq> None
         \<longrightarrow> (\<exists>e. snd (handle_all Map.empty cs) (request_ip request) = Some e
                 \<and> count e' = count e + 1 \<and> resetTime e' = resetTime e))"
proof -
  let ?m = "snd (handle_all Map.empty cs)"
  let ?d = "get_ipData ?m (request_ip request) windowMs now"
  let ?e = "update_ipData ?d windowMs now"
  have d0: "0 \<le> count ?d"
    using reachable_invariant [of cs "request_ip request"]
    by (simp add: get_ipData_def split: option.splits)
  have c1: "1 \<le> count ?e"
    using d0 by (simp add: update_ipData_def Let_def)
  have rt: "0 < windowMs \<longrightarrow> now \<le> resetTime ?e"
    using update_ipData_resetTime_ahead [of windowMs now ?d] by simp
  have dm: "dom ?m \<subseteq> dom (snd (rateLimitMiddleware ?m request maxRequests windowMs now))"
    by (auto simp add: rateLimitMiddleware_store)
  have rej: "\<exists>e. ?m (request_ip request) = Some e \<and> count ?e = count e + 1 \<and> resetTime ?e = resetTime e"
    if "1 \<le> maxRequests" and "fst (rateLimitMiddleware ?m request maxRequests windowMs now) \<noteq> None"
  proof -
    from that have big: "1 < count ?e"
      by (simp add: rateLimitMiddleware_admits)
    show ?thesis
    proof (cases "?m (request_ip request)")
      case None
      with big show ?thesis by (simp add: get_ipData_def update_ipData_def Let_def split: if_splits)
    next
      case (Some e)
      with big show ?thesis by (simp add: get_ipData_def update_ipData_def Let_def split: if_splits)
    qed
  qed
  from c1 rt dm rej show ?thesis
    by (simp add: rateLimitMiddleware_entry)
qed

lemma two_calls_store:
  "snd (handle_all Map.empty two_calls) ''1.2.3.4'' = Some \<lparr>count = 2, resetTime = 61000\<rparr>"
  by (simp add: calls_at_def handle_def rl_defs request_ip_def split_beta)

theorem entry_after_call_witness:
  "(0 :: int) < 60000 \<and> (1 :: int) \<le> 1
   \<and> fst (rateLimitMiddleware (snd (handle_all Map.empty two_calls)) client 1 60000 1700) \<noteq> None
   \<and> snd (handle_all Map.empty two_calls) (request_ip client) = Some \<lparr>count = 2, resetTime = 61000\<rparr>
   \<and> (\<exists>e'. snd (rateLimitMiddleware (snd (handle_all Map.empty two_calls)) client 1 60000 1700)
          (request_ip client) = Some e'
        \<and> 1 \<le> count e' \<and> 1700 \<le> resetTime e'
        \<and> count e' = 2 + 1 \<and> resetTime e' = 61000)"
proof -
  have h2: "snd (handle_all Map.empty two_calls) (request_ip client) = Some \<lparr>count = 2, resetTime = 61000\<rparr>"
    using two_calls_store by (simp add: request_ip_def)
  have h1: "fst (rateLimitMiddleware (snd (handle_all Map.empty two_calls)) client 1 60000 1700) \<noteq> None"
    using h2 by (simp add: rateLimitMiddleware_admits get_ipData_def update_ipData_def)
  from entry_after_call
      [where cs = two_calls and request = client and maxRequests = 1 and windowMs = 60000
         and now = 1700]
    h1 h2
  show ?thesis by auto
qed

end
